theory Spec2Isabelle
  imports Main "HOL-Library.Word"
begin

section \<open>Flat-file block recovery of ffldb: scanner and replay loop\<close>

text \<open>
  The development follows \<^verbatim>\<open>database/ffldb\<close> (the recovery file with \<^verbatim>\<open>scanner\<close>,
  \<^verbatim>\<open>getNextBlock\<close>, \<^verbatim>\<open>recoverDB\<close> and \<^verbatim>\<open>RecoverDB\<close>, in its two revisions) and
  \<^verbatim>\<open>database/ffldb/recover/main.go\<close>.
\<close>

subsection \<open>Data model\<close>

type_synonym uint32 = "32 word"
type_synonym uint64 = "64 word"
type_synonym byte = "8 word"

text \<open>
  \<^verbatim>\<open>database.Error\<close> carries an error code; every other Go \<^verbatim>\<open>error\<close> value is
  \<open>OtherError\<close>. Only \<open>ErrCorruption\<close> is distinguished by the code under study.
\<close>

datatype ErrorCode = ErrCorruption | ErrDbOther nat

text \<open>
  The errors of \<^verbatim>\<open>os.Stat\<close> that the code tells apart: \<^verbatim>\<open>os.IsNotExist\<close> holds for
  \<open>ENOENT\<close> and not for \<open>ENOTDIR\<close> (a path that runs through a file).
\<close>

datatype Errno = ENOENT | ENOTDIR

datatype error = DbError ErrorCode string | OtherError string | PathError Errno

text \<open>\<^verbatim>\<open>blockLocation{blockFileNum, fileOffset, blockLen}\<close>, all \<^verbatim>\<open>uint32\<close>.\<close>

record blockLocation =
  blockFileNum :: uint32
  fileOffset :: uint32
  blockLen :: uint32

text \<open>
  \<^verbatim>\<open>blockStore\<close>: the scanner uses two capabilities of the store, both outside the
  files at hand and therefore parameters here:
  \<^item> \<open>statSize n\<close> is \<^verbatim>\<open>os.Stat(blockFilePath(s.basePath, n))\<close>: an error, or the
    \<^verbatim>\<open>int64\<close> of \<^verbatim>\<open>st.Size()\<close>;
  \<^item> \<open>readBlock loc\<close> is \<^verbatim>\<open>s.readBlock(&zeroHash, loc)\<close>: an error, or the raw bytes.
\<close>

record blockStore =
  statSize :: "uint32 \<Rightarrow> error + int"
  readBlock :: "blockLocation \<Rightarrow> error + byte list"

text \<open>
  \<^verbatim>\<open>scanner{s *blockStore; fileNum, fileOff, fileLen uint32}\<close>. The pointer field
  \<^verbatim>\<open>s\<close> is called \<open>store\<close> here; \<^verbatim>\<open>nil\<close> is \<open>None\<close>.
\<close>

record scanner =
  store :: "blockStore option"
  fileNum :: uint32
  fileOff :: uint32
  fileLen :: uint32

text \<open>The Go zero values \<^verbatim>\<open>scanner{}\<close> and \<^verbatim>\<open>blockLocation{}\<close>.\<close>

definition zeroScanner :: scanner where
  "zeroScanner = \<lparr>store = None, fileNum = 0, fileOff = 0, fileLen = 0\<rparr>"

definition zeroLocation :: blockLocation where
  "zeroLocation = \<lparr>blockFileNum = 0, fileOffset = 0, blockLen = 0\<rparr>"

subsection \<open>The scanner\<close>

definition getNextLocation :: "scanner \<Rightarrow> blockLocation" where
  "getNextLocation sc =
     \<lparr>blockFileNum = fileNum sc, fileOffset = fileOff sc, blockLen = 0\<rparr>"

text \<open>
  \<^verbatim>\<open>getNextBlock\<close> (identical in both revisions). \<open>Deserialize\<close> stands for
  \<^verbatim>\<open>wire.MsgBlock.Deserialize\<close>: it yields the message as far as it was filled in,
  and the error the Go method returns. The source drops that error:
  \<^verbatim>\<open>msgBlock.Deserialize(bytes.NewBuffer(block))\<close> is an expression statement.
  \<^verbatim>\<open>btcutil.NewBlock(&msgBlock)\<close> is never \<^verbatim>\<open>nil\<close>; the block is represented by its
  message, a \<^verbatim>\<open>nil\<close> block by \<open>None\<close>.
  The result is the Go quadruple (next scanner, block, location, error).
\<close>

definition getNextBlock ::
  "(byte list \<Rightarrow> 'b \<times> error option) \<Rightarrow> scanner \<Rightarrow>
     scanner \<times> 'b option \<times> blockLocation \<times> error option" where
  "getNextBlock Deserialize sc =
     (case store sc of
        None \<Rightarrow> (zeroScanner, None, zeroLocation, None)
      | Some st \<Rightarrow>
          (let old = getNextLocation sc;
               probed =
                 (if fileLen sc = 0
                  then (case statSize st (fileNum sc) of
                          Inl err \<Rightarrow> None
                        | Inr sz \<Rightarrow> Some (sc\<lparr>fileLen := word_of_int sz\<rparr>))
                  else Some sc)
           in case probed of
                None \<Rightarrow> (zeroScanner, None, zeroLocation, None)
              | Some next \<Rightarrow>
                  (case readBlock st old of
                     Inl err \<Rightarrow> (zeroScanner, None, zeroLocation, Some err)
                   | Inr block \<Rightarrow>
                       (let msgBlock = fst (Deserialize block);
                            old' = old\<lparr>blockLen := word_of_nat (length block) + 12\<rparr>;
                            next' = next\<lparr>fileOff := fileOff next + blockLen old'\<rparr>;
                            next'' =
                              (if fileOff next' = fileLen next'
                               then next'\<lparr>fileLen := 0, fileOff := 0,
                                          fileNum := fileNum next' + 1\<rparr>
                               else next')
                        in (next'', Some msgBlock, old', None)))))"

definition isDbErrCorruption :: "error \<Rightarrow> bool" where
  "isDbErrCorruption err =
     (case err of
        DbError c d \<Rightarrow> c = ErrCorruption
      | OtherError d \<Rightarrow> False
      | PathError e \<Rightarrow> False)"

subsection \<open>The replay loop, callback revision\<close>

text \<open>
  \<^verbatim>\<open>recoverDB(chain, db, p, f)\<close>. The callback \<^verbatim>\<open>f\<close> is a closure over mutable
  state (the chain, the progress counters); it is modelled by state passing:
  \<open>f blk location \<sigma>\<close> returns the error (or \<open>None\<close> for \<^verbatim>\<open>nil\<close>) and the new state.
  The \<^verbatim>\<open>for\<close> loop has no bound in the source, so it is a partial function: \<open>None\<close>
  means that the loop does not return. The result is (blocksRead, err) and the final
  callback state.
\<close>

partial_function (option) recoverDB_loop ::
  "(byte list \<Rightarrow> 'b \<times> error option) \<Rightarrow>
   ('b \<Rightarrow> blockLocation \<Rightarrow> 'st \<Rightarrow> error option \<times> 'st) \<Rightarrow>
   scanner \<Rightarrow> uint32 \<Rightarrow> 'st \<Rightarrow> (uint32 \<times> error option \<times> 'st) option" where
  "recoverDB_loop Deserialize f sc blocksRead \<sigma> =
     (case getNextBlock Deserialize sc of
        (scn, blk, location, err) \<Rightarrow>
          (case err of
             Some e \<Rightarrow>
               (if isDbErrCorruption e then Some (blocksRead + 1, None, \<sigma>)
                else Some (blocksRead + 1, Some e, \<sigma>))
           | None \<Rightarrow>
               (case blk of
                  None \<Rightarrow> Some (blocksRead + 1, None, \<sigma>)
                | Some b \<Rightarrow>
                    (case f b location \<sigma> of
                       (Some e, \<sigma>') \<Rightarrow> Some (blocksRead + 1, Some e, \<sigma>')
                     | (None, \<sigma>') \<Rightarrow>
                         recoverDB_loop Deserialize f scn (blocksRead + 1) \<sigma>'))))"

definition recoverDB ::
  "(byte list \<Rightarrow> 'b \<times> error option) \<Rightarrow> blockStore \<Rightarrow>
   ('b \<Rightarrow> blockLocation \<Rightarrow> 'st \<Rightarrow> error option \<times> 'st) \<Rightarrow> 'st \<Rightarrow>
   (uint32 \<times> error option \<times> 'st) option" where
  "recoverDB Deserialize st f \<sigma> =
     (case getNextBlock Deserialize
             \<lparr>store = Some st, fileNum = 0, fileOff = 0, fileLen = 0\<rparr> of
        (sc, blk, location, err) \<Rightarrow>
          (case err of
             Some e \<Rightarrow> Some (0, Some e, \<sigma>)
           | None \<Rightarrow> recoverDB_loop Deserialize f sc 0 \<sigma>))"

subsection \<open>The replay loop, inline revision\<close>

text \<open>
  The earlier revision of \<^verbatim>\<open>recoverDB(chain, db, p)\<close> calls
  \<^verbatim>\<open>chain.ProcessBlock(blk, blockchain.BFFastAdd|blockchain.BFNoPoWCheck)\<close> in the loop
  body and keeps only its error. \<open>ProcessBlock\<close> is the method with the flags fixed,
  acting on the chain state \<open>\<sigma>\<close>.
\<close>

partial_function (option) recoverDB_loop_inline ::
  "(byte list \<Rightarrow> 'b \<times> error option) \<Rightarrow>
   ('b \<Rightarrow> 'st \<Rightarrow> error option \<times> 'st) \<Rightarrow>
   scanner \<Rightarrow> uint32 \<Rightarrow> 'st \<Rightarrow> (uint32 \<times> error option \<times> 'st) option" where
  "recoverDB_loop_inline Deserialize ProcessBlock sc blocksRead \<sigma> =
     (case getNextBlock Deserialize sc of
        (scn, blk, location, err) \<Rightarrow>
          (case err of
             Some e \<Rightarrow>
               (if isDbErrCorruption e then Some (blocksRead + 1, None, \<sigma>)
                else Some (blocksRead + 1, Some e, \<sigma>))
           | None \<Rightarrow>
               (case blk of
                  None \<Rightarrow> Some (blocksRead + 1, None, \<sigma>)
                | Some b \<Rightarrow>
                    (case ProcessBlock b \<sigma> of
                       (Some e, \<sigma>') \<Rightarrow> Some (blocksRead + 1, Some e, \<sigma>')
                     | (None, \<sigma>') \<Rightarrow>
                         recoverDB_loop_inline Deserialize ProcessBlock scn
                           (blocksRead + 1) \<sigma>'))))"

definition recoverDB_inline ::
  "(byte list \<Rightarrow> 'b \<times> error option) \<Rightarrow> blockStore \<Rightarrow>
   ('b \<Rightarrow> 'st \<Rightarrow> error option \<times> 'st) \<Rightarrow> 'st \<Rightarrow>
   (uint32 \<times> error option \<times> 'st) option" where
  "recoverDB_inline Deserialize st ProcessBlock \<sigma> =
     (case getNextBlock Deserialize
             \<lparr>store = Some st, fileNum = 0, fileOff = 0, fileLen = 0\<rparr> of
        (sc, blk, location, err) \<Rightarrow>
          (case err of
             Some e \<Rightarrow> Some (0, Some e, \<sigma>)
           | None \<Rightarrow> recoverDB_loop_inline Deserialize ProcessBlock sc 0 \<sigma>))"

text \<open>
  A callback that only calls the processing function, as
  \<^verbatim>\<open>func(blk, location) error { _, _, err := chain.ProcessBlock(blk, flags); return err }\<close>.
\<close>

definition processOnly ::
  "('b \<Rightarrow> 'st \<Rightarrow> error option \<times> 'st) \<Rightarrow>
   'b \<Rightarrow> blockLocation \<Rightarrow> 'st \<Rightarrow> error option \<times> 'st" where
  "processOnly ProcessBlock blk location \<sigma> = ProcessBlock blk \<sigma>"

subsection \<open>Vocabulary of the properties\<close>

text \<open>The scanner \<^verbatim>\<open>scanner{s: db.store}\<close> that \<^verbatim>\<open>recoverDB\<close> starts from.\<close>

definition initialScanner :: "blockStore \<Rightarrow> scanner" where
  "initialScanner st = \<lparr>store = Some st, fileNum = 0, fileOff = 0, fileLen = 0\<rparr>"

text \<open>
  The length of the cursor's file as the scanner takes it: the cursor's own
  \<open>fileLen\<close> when that is not the sentinel 0, else the \<^verbatim>\<open>uint32\<close> of the size that
  \<^verbatim>\<open>os.Stat\<close> reports; \<open>None\<close> when the file cannot be stat'ed.
\<close>

definition fileLength :: "blockStore \<Rightarrow> scanner \<Rightarrow> uint32 option" where
  "fileLength st sc =
     (if fileLen sc = 0
      then (case statSize st (fileNum sc) of
              Inl e \<Rightarrow> None
            | Inr sz \<Rightarrow> Some (word_of_int sz))
      else Some (fileLen sc))"

text \<open>
  The record at the cursor is structurally corrupted: its file is there (or its length
  is already known) and the read primitive answers with \<open>ErrCorruption\<close>.
\<close>

definition corruptRecordAt :: "scanner \<Rightarrow> bool" where
  "corruptRecordAt sc =
     (case store sc of
        None \<Rightarrow> False
      | Some st \<Rightarrow>
          (fileLen sc \<noteq> 0 \<or> \<not> isl (statSize st (fileNum sc))) \<and>
          (case readBlock st (getNextLocation sc) of
             Inl e \<Rightarrow> isDbErrCorruption e
           | Inr block \<Rightarrow> False))"

text \<open>
  The data ends at the cursor: the scanner is unbound, or it stands at the start of a
  file number that cannot be stat'ed.
\<close>

definition endOfDataAt :: "scanner \<Rightarrow> bool" where
  "endOfDataAt sc =
     (case store sc of
        None \<Rightarrow> True
      | Some st \<Rightarrow> fileLen sc = 0 \<and> isl (statSize st (fileNum sc)))"

text \<open>
  \<open>replay_prefix D f n sc \<sigma>\<close>: the next \<open>n\<close> records from cursor \<open>sc\<close> are read
  without error, each yields a block, and the callback accepts each of them in turn,
  starting in state \<open>\<sigma>\<close>. The result is the cursor and the callback state after them.
\<close>

fun replay_prefix ::
  "(byte list \<Rightarrow> 'b \<times> error option) \<Rightarrow>
   ('b \<Rightarrow> blockLocation \<Rightarrow> 'st \<Rightarrow> error option \<times> 'st) \<Rightarrow>
   nat \<Rightarrow> scanner \<Rightarrow> 'st \<Rightarrow> (scanner \<times> 'st) option" where
  "replay_prefix Deserialize f 0 sc \<sigma> = Some (sc, \<sigma>)"
| "replay_prefix Deserialize f (Suc n) sc \<sigma> =
     (case getNextBlock Deserialize sc of
        (scn, Some b, location, None) \<Rightarrow>
          (case f b location \<sigma> of
             (None, \<sigma>') \<Rightarrow> replay_prefix Deserialize f n scn \<sigma>'
           | (Some e, \<sigma>') \<Rightarrow> None)
      | _ \<Rightarrow> None)"

subsection \<open>Concrete flat files\<close>

text \<open>
  Modelled from the spec: the flat-file layout and the read primitive \<^verbatim>\<open>readBlock\<close>,
  whose file (\<^verbatim>\<open>blockio.go\<close>) is not among the sources. A file is a run of records; a
  record takes its payload plus 12 bytes of framing; the size of a file is the sum of
  its records; a record that fails its consistency check reads as \<open>ErrCorruption\<close>.
  These stores are the concrete inputs of the examples below; the general theorems
  hold for every store.
\<close>

datatype flatRecord = Intact "byte list" | Damaged "byte list"

fun recordSize :: "flatRecord \<Rightarrow> nat" where
  "recordSize (Intact bs) = length bs + 12"
| "recordSize (Damaged bs) = length bs + 12"

fun readAt :: "flatRecord list \<Rightarrow> nat \<Rightarrow> error + byte list" where
  "readAt [] off = Inl (DbError (ErrDbOther 0) ''read past the end of the file'')"
| "readAt (r # rs) off =
     (if off = 0
      then (case r of
              Intact bs \<Rightarrow> Inr bs
            | Damaged bs \<Rightarrow> Inl (DbError ErrCorruption ''checksum mismatch''))
      else if off < recordSize r
      then Inl (DbError ErrCorruption ''checksum mismatch'')
      else readAt rs (off - recordSize r))"

definition flatFiles :: "flatRecord list list \<Rightarrow> blockStore" where
  "flatFiles files =
     \<lparr>statSize = (\<lambda>n. if unat n < length files
                       then Inr (int (sum_list (map recordSize (files ! unat n))))
                       else Inl (OtherError ''no such file'')),
      readBlock = (\<lambda>loc. if unat (blockFileNum loc) < length files
                         then readAt (files ! unat (blockFileNum loc))
                                (unat (fileOffset loc))
                         else Inl (DbError (ErrDbOther 0) ''no such file''))\<rparr>"

text \<open>
  A decoder for the examples: the message is the payload itself, and a payload shorter
  than the 80 bytes of a block header does not decode.
\<close>

definition decodeHeader :: "byte list \<Rightarrow> byte list \<times> error option" where
  "decodeHeader bs =
     (if length bs < 80 then (bs, Some (OtherError ''unexpected EOF'')) else (bs, None))"

text \<open>Callbacks for the examples; their state is the list of locations they were given.\<close>

definition logBlock ::
  "'b \<Rightarrow> blockLocation \<Rightarrow> blockLocation list \<Rightarrow> error option \<times> blockLocation list" where
  "logBlock blk loc \<sigma> = (None, \<sigma> @ [loc])"

definition rejectAfter ::
  "nat \<Rightarrow> 'b \<Rightarrow> blockLocation \<Rightarrow> blockLocation list \<Rightarrow>
   error option \<times> blockLocation list" where
  "rejectAfter n blk loc \<sigma> =
     (if length \<sigma> < n then (None, \<sigma> @ [loc])
      else (Some (OtherError ''block rejected''), \<sigma> @ [loc]))"

definition rec80 :: "byte \<Rightarrow> flatRecord" where
  "rec80 x = Intact (replicate 80 x)"

text \<open>Two files of two records; the third record of the sequence is damaged.\<close>

definition files3 :: "flatRecord list list" where
  "files3 = [[rec80 1, rec80 2], [Damaged (replicate 80 3), rec80 4]]"

text \<open>The first record of the sequence is damaged.\<close>

definition filesDamagedFirst :: "flatRecord list list" where
  "filesDamagedFirst = [[Damaged (replicate 80 1), rec80 2]]"

text \<open>Two files of one intact record each.\<close>

definition files2 :: "flatRecord list list" where
  "files2 = [[rec80 1], [rec80 2]]"

text \<open>One file whose only record is readable but too short to decode.\<close>

definition filesShort :: "flatRecord list list" where
  "filesShort = [[Intact [1, 2, 3]]]"

text \<open>Two files of two intact records each.\<close>

definition files4 :: "flatRecord list list" where
  "files4 = [[rec80 1, rec80 2], [rec80 3, rec80 4]]"

section \<open>The staging of the database directory\<close>

subsection \<open>The directory tree and the operating system\<close>

text \<open>
  \<^verbatim>\<open>recoverDatabase(path, net)\<close> works on the directory \<^verbatim>\<open>path\<close> through \<^verbatim>\<open>os.Stat\<close>,
  \<^verbatim>\<open>os.MkdirAll\<close>, \<^verbatim>\<open>os.RemoveAll\<close> and the command \<^verbatim>\<open>mv\<close>. The state is the tree
  found at \<^verbatim>\<open>path\<close> (\<open>None\<close> when nothing is there) together with the list of the
  commands that changed or tried to change it. A path is the list of the names below
  \<^verbatim>\<open>path\<close>, so \<open>[]\<close> is \<^verbatim>\<open>path\<close> itself. The operations fail for the reasons a tree
  can show (a missing entry, a file where a directory is needed); permissions and
  device errors are outside the model.
\<close>

datatype node = File "byte list" | Dir "string \<Rightarrow> node option"

type_synonym path = "string list"

datatype BitcoinNet = MainNet | TestNet3 | OtherNet

datatype command = MkdirAll path | Mv path path | RemoveAll path

record filesystem =
  tree :: "node option"
  commands :: "command list"

text \<open>\<^verbatim>\<open>var recoveryDir = "recovery"\<close>.\<close>

definition recoveryDir :: string where
  "recoveryDir = ''recovery''"

text \<open>\<^verbatim>\<open>filepath.Join\<close> of a path and one name; an empty name adds nothing.\<close>

definition Join :: "path \<Rightarrow> string \<Rightarrow> path" where
  "Join p name = (if name = [] then p else p @ [name])"

fun child :: "node \<Rightarrow> string \<Rightarrow> error + node" where
  "child (File bs) name = Inl (PathError ENOTDIR)"
| "child (Dir entries) name =
     (case entries name of None \<Rightarrow> Inl (PathError ENOENT) | Some n \<Rightarrow> Inr n)"

fun statFrom :: "node \<Rightarrow> path \<Rightarrow> error + node" where
  "statFrom n [] = Inr n"
| "statFrom n (name # rest) =
     (case child n name of Inl err \<Rightarrow> Inl err | Inr c \<Rightarrow> statFrom c rest)"

definition os_Stat :: "filesystem \<Rightarrow> path \<Rightarrow> error + node" where
  "os_Stat fs p =
     (case tree fs of None \<Rightarrow> Inl (PathError ENOENT) | Some top_node \<Rightarrow> statFrom top_node p)"

definition os_IsNotExist :: "error \<Rightarrow> bool" where
  "os_IsNotExist err = (err = PathError ENOENT)"

text \<open>\<open>putAt n p v\<close> sets (\<open>Some\<close>) or removes (\<open>None\<close>) the entry at \<open>p\<close> below \<open>n\<close>.\<close>

fun putAt :: "node \<Rightarrow> path \<Rightarrow> node option \<Rightarrow> node" where
  "putAt n [] v = (case v of None \<Rightarrow> n | Some c \<Rightarrow> c)"
| "putAt n [name] v =
     (case n of File bs \<Rightarrow> n | Dir entries \<Rightarrow> Dir (entries(name := v)))"
| "putAt n (name # rest) v =
     (case n of
        File bs \<Rightarrow> n
      | Dir entries \<Rightarrow>
          (case entries name of
             None \<Rightarrow> n
           | Some c \<Rightarrow> Dir (entries(name \<mapsto> putAt c rest v))))"

fun mkdirFrom :: "node \<Rightarrow> path \<Rightarrow> error + node" where
  "mkdirFrom n [] = (case n of File bs \<Rightarrow> Inl (PathError ENOTDIR) | Dir entries \<Rightarrow> Inr n)"
| "mkdirFrom n (name # rest) =
     (case n of
        File bs \<Rightarrow> Inl (PathError ENOTDIR)
      | Dir entries \<Rightarrow>
          (case mkdirFrom (case entries name of None \<Rightarrow> Dir Map.empty | Some c \<Rightarrow> c) rest of
             Inl err \<Rightarrow> Inl err
           | Inr c \<Rightarrow> Inr (Dir (entries(name \<mapsto> c)))))"

definition os_MkdirAll :: "filesystem \<Rightarrow> path \<Rightarrow> error option \<times> filesystem" where
  "os_MkdirAll fs p =
     (case mkdirFrom (case tree fs of None \<Rightarrow> Dir Map.empty | Some top_node \<Rightarrow> top_node) p of
        Inl err \<Rightarrow> (Some err, fs\<lparr>commands := commands fs @ [MkdirAll p]\<rparr>)
      | Inr top_node \<Rightarrow> (None, \<lparr>tree = Some top_node, commands = commands fs @ [MkdirAll p]\<rparr>))"

text \<open>\<^verbatim>\<open>os.RemoveAll\<close> returns \<^verbatim>\<open>nil\<close> for a path that does not exist.\<close>

definition os_RemoveAll :: "filesystem \<Rightarrow> path \<Rightarrow> error option \<times> filesystem" where
  "os_RemoveAll fs p =
     (case os_Stat fs p of
        Inl err \<Rightarrow>
          (if os_IsNotExist err then None else Some err,
           fs\<lparr>commands := commands fs @ [RemoveAll p]\<rparr>)
      | Inr n \<Rightarrow>
          (None,
           \<lparr>tree = (if p = [] then None else map_option (\<lambda>top_node. putAt top_node p None) (tree fs)),
            commands = commands fs @ [RemoveAll p]\<rparr>))"

text \<open>
  \<^verbatim>\<open>exec.Command("mv", src, dst).Run()\<close>. The case that matters is the move of an
  existing node into an existing directory \<open>dst\<close> that has no entry of its name: the
  node becomes \<open>dst/name\<close>. A missing source, a move of a directory into itself, a
  target that is taken and a \<open>dst\<close> that is no directory are all taken as a failed
  command (exit status 1) that changes nothing; \<open>recoverDatabase\<close> calls \<^verbatim>\<open>mv\<close> only
  after \<^verbatim>\<open>os.Stat\<close> has found the source and has not found the target.
\<close>

definition mv :: "filesystem \<Rightarrow> path \<Rightarrow> path \<Rightarrow> error option \<times> filesystem" where
  "mv fs src dst =
     (let fs' = fs\<lparr>commands := commands fs @ [Mv src dst]\<rparr>;
          failed = (Some (OtherError ''exit status 1''), fs')
      in case os_Stat fs src of
           Inl err \<Rightarrow> failed
         | Inr n \<Rightarrow>
             (case os_Stat fs dst of
                Inr (Dir entries) \<Rightarrow>
                  (if src = [] \<or> take (length src) dst = src \<or> entries (last src) \<noteq> None
                   then failed
                   else (None,
                         fs'\<lparr>tree :=
                               map_option
                                 (\<lambda>top_node. putAt (putAt top_node src None) (dst @ [last src]) (Some n))
                                 (tree fs)\<rparr>))
              | _ \<Rightarrow> failed))"

text \<open>\<^verbatim>\<open>err.Error()\<close>, the message of an error.\<close>

fun Error :: "error \<Rightarrow> string" where
  "Error (DbError c description) = description"
| "Error (OtherError msg) = msg"
| "Error (PathError ENOENT) = ''no such file or directory''"
| "Error (PathError ENOTDIR) = ''not a directory''"

subsection \<open>The staging steps of recoverDatabase\<close>

text \<open>
  The choice of \<^verbatim>\<open>subdir\<close> at the head of \<^verbatim>\<open>recoverDatabase\<close>; for a net that is
  neither \<^verbatim>\<open>wire.MainNet\<close> nor \<^verbatim>\<open>wire.TestNet3\<close> the variable keeps its zero value.
\<close>

definition subdirOf :: "BitcoinNet \<Rightarrow> string" where
  "subdirOf net =
     (if net = MainNet then ''mainnet'' else if net = TestNet3 then ''testnet'' else [])"

text \<open>The block under \<^verbatim>\<open>// Create recovery directory if it does not exist.\<close>\<close>

definition createRecoveryDir :: "path \<Rightarrow> path \<Rightarrow> filesystem \<Rightarrow> error option \<times> filesystem" where
  "createRecoveryDir dbPath recoveryPath fs =
     (case os_Stat fs recoveryPath of
        Inl err \<Rightarrow>
          (if os_IsNotExist err
           then (case os_Stat fs dbPath of
                   Inl err' \<Rightarrow> (Some err', fs)
                 | Inr n \<Rightarrow> os_MkdirAll fs recoveryPath)
           else (Some err, fs))
      | Inr n \<Rightarrow> (None, fs))"

text \<open>The block under \<^verbatim>\<open>// Move database to recovery directory.\<close>\<close>

definition moveDatabase ::
  "path \<Rightarrow> path \<Rightarrow> path \<Rightarrow> filesystem \<Rightarrow> error option \<times> filesystem" where
  "moveDatabase dbPath recoveryPath recoveryDbPath fs =
     (case os_Stat fs recoveryDbPath of
        Inl err \<Rightarrow>
          (if os_IsNotExist err
           then (case os_Stat fs dbPath of
                   Inl err' \<Rightarrow>
                     (if os_IsNotExist err'
                      then (Some (OtherError ''Could not find database to recover.''), fs)
                      else (Some err', fs))
                 | Inr n \<Rightarrow>
                     (case mv fs dbPath recoveryPath of
                        (Some err', fs') \<Rightarrow>
                          (Some (OtherError (''Could not move folder: '' @ Error err')), fs')
                      | (None, fs') \<Rightarrow> (None, fs')))
           else (None, fs))
      | Inr n \<Rightarrow> (None, fs))"

text \<open>The block under \<^verbatim>\<open>// Delete old database if necessary.\<close>\<close>

definition deleteOldDatabase :: "path \<Rightarrow> filesystem \<Rightarrow> error option \<times> filesystem" where
  "deleteOldDatabase dbPath fs =
     (case os_Stat fs dbPath of
        Inl err \<Rightarrow> (None, fs)
      | Inr n \<Rightarrow> os_RemoveAll fs dbPath)"

text \<open>
  \<^verbatim>\<open>recoverDatabase\<close> from its first statement up to the call of \<^verbatim>\<open>ffldb.RecoverDB\<close>:
  the check of \<^verbatim>\<open>path\<close>, the three paths and the three blocks above, each of which
  returns early with its error. \<open>None\<close> means that the call of \<^verbatim>\<open>ffldb.RecoverDB\<close> is
  reached.
\<close>

definition recoverDatabase_staging ::
  "BitcoinNet \<Rightarrow> filesystem \<Rightarrow> error option \<times> filesystem" where
  "recoverDatabase_staging net fs =
     (let subdir = subdirOf net in
      case os_Stat fs [] of
        Inl err \<Rightarrow> (Some (OtherError ''Could not read path.''), fs)
      | Inr n \<Rightarrow>
          (let dbPath = Join [] subdir;
               recoveryPath = Join [] recoveryDir;
               recoveryDbPath = Join recoveryPath subdir
           in case createRecoveryDir dbPath recoveryPath fs of
                (Some err, fs1) \<Rightarrow> (Some err, fs1)
              | (None, fs1) \<Rightarrow>
                  (case moveDatabase dbPath recoveryPath recoveryDbPath fs1 of
                     (Some err, fs2) \<Rightarrow> (Some err, fs2)
                   | (None, fs2) \<Rightarrow> deleteOldDatabase dbPath fs2)))"

text \<open>The three paths of \<^verbatim>\<open>recoverDatabase\<close>, for the statements of the properties.\<close>

definition dbPath :: "BitcoinNet \<Rightarrow> path" where
  "dbPath net = Join [] (subdirOf net)"

definition recoveryPath :: path where
  "recoveryPath = Join [] recoveryDir"

definition recoveryDbPath :: "BitcoinNet \<Rightarrow> path" where
  "recoveryDbPath net = Join recoveryPath (subdirOf net)"

definition isMove :: "command \<Rightarrow> bool" where
  "isMove c = (case c of Mv src dst \<Rightarrow> True | _ \<Rightarrow> False)"

text \<open>A database directory with one block file, before and after its staging.\<close>

definition liveDatabase :: node where
  "liveDatabase =
     Dir (Map.empty(''blocks_ffldb'' \<mapsto> Dir (Map.empty(''000000000.fdb'' \<mapsto> File [1, 2, 3]))))"

definition freshInstall :: filesystem where
  "freshInstall =
     \<lparr>tree = Some (Dir (Map.empty(''mainnet'' \<mapsto> liveDatabase))), commands = []\<rparr>"

definition stagedInstall :: filesystem where
  "stagedInstall =
     \<lparr>tree = Some (Dir (Map.empty(''recovery'' \<mapsto> Dir (Map.empty(''mainnet'' \<mapsto> liveDatabase))))),
      commands = [MkdirAll [''recovery''], Mv [''mainnet''] [''recovery'']]\<rparr>"


section \<open>The progress reports of RecoverDB\<close>

subsection \<open>The callback of RecoverDB\<close>

text \<open>An integer division by zero is a run-time panic in Go.\<close>

datatype panic = IntegerDivideByZero

text \<open>
  The variables that the closure passed to \<^verbatim>\<open>recoverDB\<close> captures: the four counters,
  the state of the chain, and the calls of \<^verbatim>\<open>printStatus\<close> made so far.
\<close>

record 'c progress =
  bytesRead :: uint64
  reports :: uint64
  blocksReports :: uint32
  blocksRead :: uint32
  printed :: "(uint64 \<times> uint32) list"
  chain :: 'c


text \<open>
  \<^verbatim>\<open>printStatus(bytesRead, blocksRead)\<close>. What it prints is computed in \<^verbatim>\<open>float64\<close> from
  its two arguments, \<^verbatim>\<open>dbSize\<close> and the clock:
  \<^verbatim>\<open>fraction := float64(bytesRead) / float64(dbSize)\<close>, \<^verbatim>\<open>percent := fraction * 100\<close>,
  \<^verbatim>\<open>estimatedTimeRemaining := timeTaken * (1 - fraction) / fraction\<close>, with no test of
  \<^verbatim>\<open>fraction\<close>. Floating point and the clock are not modelled: a call is recorded with
  its two arguments.
\<close>

definition printStatus :: "'c progress \<Rightarrow> 'c progress" where
  "printStatus st = st\<lparr>printed := printed st @ [(bytesRead st, blocksRead st)]\<rparr>"

text \<open>
  The closure, with \<^verbatim>\<open>reportInterval = dbSize / 100\<close> and
  \<^verbatim>\<open>blocksReportInterval = 10000\<close>. The first thing it evaluates after the two
  increments is \<^verbatim>\<open>bytesRead/reportInterval\<close>, a \<^verbatim>\<open>uint64\<close> division.
\<close>

definition progressCallback ::
  "uint64 \<Rightarrow> ('b \<Rightarrow> 'c \<Rightarrow> error option \<times> 'c) \<Rightarrow>
   'b \<Rightarrow> blockLocation \<Rightarrow> 'c progress \<Rightarrow> panic + (error option \<times> 'c progress)" where
  "progressCallback dbSize ProcessBlock blk location st =
     (let blocksReportInterval = 10000;
          reportInterval = dbSize div 100;
          st1 = st\<lparr>bytesRead := bytesRead st + ucast (blockLen location),
                   blocksRead := blocksRead st + 1\<rparr>
      in if reportInterval = 0 then Inl IntegerDivideByZero
         else
           (let st2 =
                  (if bytesRead st1 div reportInterval > reports st1
                   then printStatus (st1\<lparr>reports := bytesRead st1 div reportInterval\<rparr>)
                   else st1);
                st3 =
                  (if blocksRead st2 div blocksReportInterval > blocksReports st2
                   then printStatus
                          (st2\<lparr>blocksReports := blocksRead st2 div blocksReportInterval\<rparr>)
                   else st2)
            in case ProcessBlock blk (chain st3) of
                 (err, c) \<Rightarrow> Inr (err, st3\<lparr>chain := c\<rparr>)))"

subsection \<open>RecoverDB\<close>








section \<open>Properties of the scanner\<close>

subsection \<open>The four outcomes of an advance\<close>

lemma getNextBlock_nil:
  "store sc = None \<Longrightarrow> getNextBlock D sc = (zeroScanner, None, zeroLocation, None)"
  by (simp add: getNextBlock_def)

lemma getNextBlock_absent:
  "store sc = Some st \<Longrightarrow> fileLength st sc = None \<Longrightarrow>
   getNextBlock D sc = (zeroScanner, None, zeroLocation, None)"
  by (cases "statSize st (fileNum sc)")
     (simp_all add: getNextBlock_def fileLength_def Let_def split: if_splits)

lemma getNextBlock_readErr:
  "store sc = Some st \<Longrightarrow> fileLength st sc = Some L \<Longrightarrow>
   readBlock st (getNextLocation sc) = Inl e \<Longrightarrow>
   getNextBlock D sc = (zeroScanner, None, zeroLocation, Some e)"
  by (cases "statSize st (fileNum sc)")
     (simp_all add: getNextBlock_def fileLength_def Let_def split: if_splits)

lemma getNextBlock_ok:
  assumes "store sc = Some st" and "fileLength st sc = Some L"
    and "readBlock st (getNextLocation sc) = Inr raw"
  shows "getNextBlock D sc =
     ((if fileOff sc + (word_of_nat (length raw) + 12) = L
       then \<lparr>store = store sc, fileNum = fileNum sc + 1, fileOff = 0, fileLen = 0\<rparr>
       else \<lparr>store = store sc, fileNum = fileNum sc,
             fileOff = fileOff sc + (word_of_nat (length raw) + 12), fileLen = L\<rparr>),
      Some (fst (D raw)),
      \<lparr>blockFileNum = fileNum sc, fileOffset = fileOff sc,
       blockLen = word_of_nat (length raw) + 12\<rparr>,
      None)"
proof (cases sc)
  case (fields s n off len)
  show ?thesis
  proof (cases "len = 0")
    case True
    with assms fields obtain sz where "statSize st n = Inr sz" "L = word_of_int sz"
      by (cases "statSize st n") (simp_all add: fileLength_def)
    with assms fields True show ?thesis
      by (simp add: getNextBlock_def getNextLocation_def Let_def)
  next
    case False
    with assms fields have "L = len" by (simp add: fileLength_def)
    with assms fields False show ?thesis
      by (simp add: getNextBlock_def getNextLocation_def Let_def)
  qed
qed

lemma getNextBlock_cases:
  obtains (nil) "store sc = None"
  | (absent) st where "store sc = Some st" "fileLength st sc = None"
  | (readErr) st L e where "store sc = Some st" "fileLength st sc = Some L"
      "readBlock st (getNextLocation sc) = Inl e"
  | (ok) st L raw where "store sc = Some st" "fileLength st sc = Some L"
      "readBlock st (getNextLocation sc) = Inr raw"
proof (cases "store sc")
  case None
  then show ?thesis by (rule nil)
next
  case (Some st)
  show ?thesis
  proof (cases "fileLength st sc")
    case None
    with Some show ?thesis by (rule absent)
  next
    case (Some L) note L = this
    show ?thesis
    proof (cases "readBlock st (getNextLocation sc)")
      case (Inl e)
      with \<open>store sc = Some st\<close> L show ?thesis by (rule readErr)
    next
      case (Inr raw)
      with \<open>store sc = Some st\<close> L show ?thesis by (rule ok)
    qed
  qed
qed

lemma getNextBlock_stop:
  assumes "getNextBlock D sc = (next, blk, loc, err)" and "blk = None \<or> err \<noteq> None"
  shows "next = zeroScanner"
proof (cases sc rule: getNextBlock_cases)
  case nil
  with assms show ?thesis by (simp add: getNextBlock_nil)
next
  case (absent st)
  with assms show ?thesis by (simp add: getNextBlock_absent)
next
  case (readErr st L e)
  with assms show ?thesis by (simp add: getNextBlock_readErr)
next
  case (ok st L raw)
  from assms(1) have "blk \<noteq> None \<and> err = None"
    unfolding getNextBlock_ok [OF ok] by auto
  with assms(2) show ?thesis by simp
qed

lemma getNextBlock_corrupt:
  assumes "corruptRecordAt sc"
  shows "\<exists>e. getNextBlock D sc = (zeroScanner, None, zeroLocation, Some e) \<and>
             isDbErrCorruption e"
  using assms
  by (auto simp: corruptRecordAt_def getNextBlock_def Let_def
           split: option.splits sum.splits)

lemma getNextBlock_endOfData:
  assumes "endOfDataAt sc"
  shows "getNextBlock D sc = (zeroScanner, None, zeroLocation, None)"
  using assms
  by (auto simp: endOfDataAt_def getNextBlock_def Let_def
           split: option.splits sum.splits)

subsection \<open>Advances on the concrete files\<close>

lemmas flat_eval =
  getNextBlock_def initialScanner_def getNextLocation_def flatFiles_def
  rec80_def decodeHeader_def Let_def

lemma files3_first:
  "getNextBlock decodeHeader (initialScanner (flatFiles files3)) =
     (\<lparr>store = Some (flatFiles files3), fileNum = 0, fileOff = 92, fileLen = 184\<rparr>,
      Some (replicate 80 1),
      \<lparr>blockFileNum = 0, fileOffset = 0, blockLen = 92\<rparr>, None)"
  by (simp add: flat_eval files3_def)

lemma files3_second:
  "getNextBlock decodeHeader
     \<lparr>store = Some (flatFiles files3), fileNum = 0, fileOff = 92, fileLen = 184\<rparr> =
     (\<lparr>store = Some (flatFiles files3), fileNum = 1, fileOff = 0, fileLen = 0\<rparr>,
      Some (replicate 80 2),
      \<lparr>blockFileNum = 0, fileOffset = 92, blockLen = 92\<rparr>, None)"
  by (simp add: flat_eval files3_def)

lemma files3_third:
  "corruptRecordAt
     \<lparr>store = Some (flatFiles files3), fileNum = 1, fileOff = 0, fileLen = 0\<rparr>"
  by (simp add: corruptRecordAt_def getNextLocation_def flatFiles_def files3_def
        rec80_def isDbErrCorruption_def)

lemma files2_first:
  "getNextBlock decodeHeader (initialScanner (flatFiles files2)) =
     (\<lparr>store = Some (flatFiles files2), fileNum = 1, fileOff = 0, fileLen = 0\<rparr>,
      Some (replicate 80 1),
      \<lparr>blockFileNum = 0, fileOffset = 0, blockLen = 92\<rparr>, None)"
  by (simp add: flat_eval files2_def)

lemma files2_second:
  "getNextBlock decodeHeader
     \<lparr>store = Some (flatFiles files2), fileNum = 1, fileOff = 0, fileLen = 0\<rparr> =
     (\<lparr>store = Some (flatFiles files2), fileNum = 2, fileOff = 0, fileLen = 0\<rparr>,
      Some (replicate 80 2),
      \<lparr>blockFileNum = 1, fileOffset = 0, blockLen = 92\<rparr>, None)"
  by (simp add: flat_eval files2_def)

lemma files2_end:
  "endOfDataAt
     \<lparr>store = Some (flatFiles files2), fileNum = 2, fileOff = 0, fileLen = 0\<rparr>"
  by (simp add: endOfDataAt_def flatFiles_def files2_def)

lemma files2_prefix:
  "replay_prefix decodeHeader logBlock 1
     \<lparr>store = Some (flatFiles files2), fileNum = 1, fileOff = 0, fileLen = 0\<rparr> [] =
     Some (\<lparr>store = Some (flatFiles files2), fileNum = 2, fileOff = 0, fileLen = 0\<rparr>,
           [\<lparr>blockFileNum = 1, fileOffset = 0, blockLen = 92\<rparr>])"
  by (simp add: files2_second logBlock_def)

subsection \<open>Location and next cursor of a successful advance\<close>

text \<open>
  C4. For every cursor bound to a store, when the length \<open>L\<close> of its file is known
  (the cursor's \<open>fileLen\<close>, or the stat'ed size when that is 0) and the read at the
  cursor's position succeeds with the bytes \<open>raw\<close>, \<open>getNextBlock\<close> returns a block
  and no error; the returned location is the cursor's position with
  \<open>blockLen = uint32 (len raw) + 12\<close>; and the next cursor is file \<open>fileNum + 1\<close> at
  offset 0 with length 0 when \<open>fileOff + blockLen = L\<close>, and otherwise the same file
  with the offset advanced by \<open>blockLen\<close>. All arithmetic is that of \<^verbatim>\<open>uint32\<close>.
\<close>

theorem getNextBlock_location_and_cursor:
  assumes "store sc = Some st"
    and "fileLength st sc = Some L"
    and "readBlock st (getNextLocation sc) = Inr raw"
  shows "\<exists>next blk loc.
           getNextBlock D sc = (next, Some blk, loc, None) \<and>
           blk = fst (D raw) \<and>
           blockFileNum loc = fileNum sc \<and>
           fileOffset loc = fileOff sc \<and>
           blockLen loc = word_of_nat (length raw) + 12 \<and>
           next = (if fileOff sc + blockLen loc = L
                   then \<lparr>store = store sc, fileNum = fileNum sc + 1,
                         fileOff = 0, fileLen = 0\<rparr>
                   else \<lparr>store = store sc, fileNum = fileNum sc,
                         fileOff = fileOff sc + blockLen loc, fileLen = L\<rparr>)"
proof -
  let ?loc = "\<lparr>blockFileNum = fileNum sc, fileOffset = fileOff sc,
               blockLen = word_of_nat (length raw) + 12\<rparr>"
  let ?next = "if fileOff sc + (word_of_nat (length raw) + 12) = L
       then \<lparr>store = store sc, fileNum = fileNum sc + 1, fileOff = 0, fileLen = 0\<rparr>
       else \<lparr>store = store sc, fileNum = fileNum sc,
             fileOff = fileOff sc + (word_of_nat (length raw) + 12), fileLen = L\<rparr>"
  have "getNextBlock D sc = (?next, Some (fst (D raw)), ?loc, None)"
    using assms by (rule getNextBlock_ok)
  moreover have "blockFileNum ?loc = fileNum sc" "fileOffset ?loc = fileOff sc"
    "blockLen ?loc = word_of_nat (length raw) + 12"
    by simp_all
  ultimately show ?thesis by (intro exI [of _ ?next] exI [of _ ?loc] exI) simp
qed

text \<open>
  On \<open>files3\<close>, whose file 0 holds 184 bytes: from the initial cursor the first record
  leaves the cursor in file 0 at offset 92, with the stat'ed length 184; from there the
  second record ends the file (92 + 92 = 184) and the cursor rolls over to file 1.
\<close>

theorem getNextBlock_location_and_cursor_witness:
  "getNextBlock decodeHeader (initialScanner (flatFiles files3)) =
     (\<lparr>store = Some (flatFiles files3), fileNum = 0, fileOff = 92, fileLen = 184\<rparr>,
      Some (replicate 80 1),
      \<lparr>blockFileNum = 0, fileOffset = 0, blockLen = 92\<rparr>, None) \<and>
   getNextBlock decodeHeader
     \<lparr>store = Some (flatFiles files3), fileNum = 0, fileOff = 92, fileLen = 184\<rparr> =
     (\<lparr>store = Some (flatFiles files3), fileNum = 1, fileOff = 0, fileLen = 0\<rparr>,
      Some (replicate 80 2),
      \<lparr>blockFileNum = 0, fileOffset = 92, blockLen = 92\<rparr>, None)"
proof -
  let ?c0 = "initialScanner (flatFiles files3)"
  let ?c1 = "\<lparr>store = Some (flatFiles files3), fileNum = 0, fileOff = 92, fileLen = 184\<rparr>"
  have s0: "store ?c0 = Some (flatFiles files3)"
    by (simp add: initialScanner_def)
  have l0: "fileLength (flatFiles files3) ?c0 = Some 184"
    by (simp add: fileLength_def initialScanner_def flatFiles_def files3_def rec80_def)
  have r0: "readBlock (flatFiles files3) (getNextLocation ?c0) = Inr (replicate 80 1)"
    by (simp add: getNextLocation_def initialScanner_def flatFiles_def files3_def rec80_def)
  have s1: "store ?c1 = Some (flatFiles files3)"
    by simp
  have l1: "fileLength (flatFiles files3) ?c1 = Some 184"
    by (simp add: fileLength_def)
  have r1: "readBlock (flatFiles files3) (getNextLocation ?c1) = Inr (replicate 80 2)"
    by (simp add: getNextLocation_def flatFiles_def files3_def rec80_def)
  have d: "fst (decodeHeader (replicate 80 x)) = replicate 80 x" for x :: byte
    by (simp add: decodeHeader_def)
  from getNextBlock_location_and_cursor [OF s0 l0 r0, of decodeHeader]
  obtain next0 blk0 loc0 where
    g0: "getNextBlock decodeHeader ?c0 = (next0, Some blk0, loc0, None)" and
    b0: "blk0 = replicate 80 1" and
    f0: "blockFileNum loc0 = 0" "fileOffset loc0 = 0" "blockLen loc0 = 92" and
    n0: "next0 = ?c1"
    by (auto simp: d initialScanner_def)
  from f0 have "loc0 = \<lparr>blockFileNum = 0, fileOffset = 0, blockLen = 92\<rparr>"
    by (cases loc0) simp
  with g0 b0 n0 have first: "getNextBlock decodeHeader ?c0 =
     (?c1, Some (replicate 80 1), \<lparr>blockFileNum = 0, fileOffset = 0, blockLen = 92\<rparr>, None)"
    by simp
  from getNextBlock_location_and_cursor [OF s1 l1 r1, of decodeHeader]
  obtain next1 blk1 loc1 where
    g1: "getNextBlock decodeHeader ?c1 = (next1, Some blk1, loc1, None)" and
    b1: "blk1 = replicate 80 2" and
    f1: "blockFileNum loc1 = 0" "fileOffset loc1 = 92" "blockLen loc1 = 92" and
    n1: "next1 = \<lparr>store = Some (flatFiles files3), fileNum = 1, fileOff = 0, fileLen = 0\<rparr>"
    by (auto simp: d)
  from f1 have "loc1 = \<lparr>blockFileNum = 0, fileOffset = 92, blockLen = 92\<rparr>"
    by (cases loc1) simp
  with g1 b1 n1 have second: "getNextBlock decodeHeader ?c1 =
     (\<lparr>store = Some (flatFiles files3), fileNum = 1, fileOff = 0, fileLen = 0\<rparr>,
      Some (replicate 80 2), \<lparr>blockFileNum = 0, fileOffset = 92, blockLen = 92\<rparr>, None)"
    by simp
  from first second show ?thesis by (rule conjI)
qed

subsection \<open>A missing file ends the data\<close>

text \<open>
  C5. For a cursor with \<open>fileLen = 0\<close> whose file cannot be stat'ed, \<open>getNextBlock\<close>
  returns end-of-data: the zero scanner, no block, the zero location and no error.
\<close>

theorem getNextBlock_missing_file:
  assumes "store sc = Some st" and "fileLen sc = 0"
    and "statSize st (fileNum sc) = Inl e"
  shows "getNextBlock D sc = (zeroScanner, None, zeroLocation, None)"
  using assms by (simp add: getNextBlock_def Let_def)

theorem getNextBlock_missing_file_witness:
  "statSize (flatFiles files2) 2 = Inl (OtherError ''no such file'') \<and>
   getNextBlock decodeHeader
     \<lparr>store = Some (flatFiles files2), fileNum = 2, fileOff = 0, fileLen = 0\<rparr> =
     (zeroScanner, None, zeroLocation, None)"
proof -
  have s: "statSize (flatFiles files2) 2 = Inl (OtherError ''no such file'')"
    by (simp add: flatFiles_def files2_def)
  from getNextBlock_missing_file
    [of "\<lparr>store = Some (flatFiles files2), fileNum = 2, fileOff = 0, fileLen = 0\<rparr>"
        "flatFiles files2" "OtherError ''no such file''" decodeHeader] s
  show ?thesis by simp
qed

subsection \<open>End-of-data is absorbing\<close>

text \<open>
  C9. Whenever \<open>getNextBlock\<close> returns no block or an error, the scanner it returns is
  the zero scanner, which has no store, and every further advance from it returns the
  zero scanner again with no block, the zero location and no error.
\<close>

theorem getNextBlock_end_absorbing:
  assumes "getNextBlock D sc = (next, blk, loc, err)" and "blk = None \<or> err \<noteq> None"
  shows "next = zeroScanner \<and> store next = None \<and>
         (\<forall>n. ((\<lambda>c. fst (getNextBlock D c)) ^^ n) next = zeroScanner \<and>
              getNextBlock D (((\<lambda>c. fst (getNextBlock D c)) ^^ n) next) =
                (zeroScanner, None, zeroLocation, None))"
proof -
  have z: "getNextBlock D zeroScanner = (zeroScanner, None, zeroLocation, None)"
    by (rule getNextBlock_nil) (simp add: zeroScanner_def)
  have n: "next = zeroScanner"
    using assms by (rule getNextBlock_stop)
  have it: "((\<lambda>c. fst (getNextBlock D c)) ^^ n) zeroScanner = zeroScanner" for n
    by (induction n) (simp_all add: z)
  have "store zeroScanner = None" by (simp add: zeroScanner_def)
  with n z it show ?thesis by simp
qed

text \<open>On \<open>files3\<close>: the advance onto the damaged third record returns an error.\<close>

theorem getNextBlock_end_absorbing_witness:
  "getNextBlock decodeHeader
     \<lparr>store = Some (flatFiles files3), fileNum = 1, fileOff = 0, fileLen = 0\<rparr> =
     (zeroScanner, None, zeroLocation, Some (DbError ErrCorruption ''checksum mismatch'')) \<and>
   store zeroScanner = None \<and>
   getNextBlock decodeHeader
     (((\<lambda>c. fst (getNextBlock decodeHeader c)) ^^ 2) zeroScanner) =
     (zeroScanner, None, zeroLocation, None)"
proof -
  have g: "getNextBlock decodeHeader
     \<lparr>store = Some (flatFiles files3), fileNum = 1, fileOff = 0, fileLen = 0\<rparr> =
     (zeroScanner, None, zeroLocation, Some (DbError ErrCorruption ''checksum mismatch''))"
    by (simp add: flat_eval files3_def)
  from getNextBlock_end_absorbing [OF g] g show ?thesis by blast
qed

subsection \<open>The error of the decoder\<close>

text \<open>
  C3 fails on the code. When the record at the cursor is read and \<open>Deserialize\<close>
  reports an error for its bytes, \<open>getNextBlock\<close> still returns a block (the message as
  far as it was decoded) and no error: the error of \<open>Deserialize\<close> is not looked at.
\<close>

theorem getNextBlock_drops_Deserialize_error:
  assumes "store sc = Some st" and "fileLength st sc = Some L"
    and "readBlock st (getNextLocation sc) = Inr raw"
    and "D raw = (m, Some e)"
  shows "\<exists>next loc. getNextBlock D sc = (next, Some m, loc, None)"
  unfolding getNextBlock_ok [OF assms(1,2,3)] using assms(4) by simp

theorem getNextBlock_drops_Deserialize_error_witness:
  "decodeHeader [1, 2, 3] = ([1, 2, 3], Some (OtherError ''unexpected EOF'')) \<and>
   (\<exists>next loc. getNextBlock decodeHeader (initialScanner (flatFiles filesShort)) =
      (next, Some [1, 2, 3], loc, None))"
proof -
  have a: "store (initialScanner (flatFiles filesShort)) = Some (flatFiles filesShort)"
    by (simp add: initialScanner_def)
  have b: "fileLength (flatFiles filesShort) (initialScanner (flatFiles filesShort)) = Some 15"
    by (simp add: fileLength_def initialScanner_def flatFiles_def filesShort_def)
  have c: "readBlock (flatFiles filesShort)
             (getNextLocation (initialScanner (flatFiles filesShort))) = Inr [1, 2, 3]"
    by (simp add: getNextLocation_def initialScanner_def flatFiles_def filesShort_def)
  have d: "decodeHeader [1, 2, 3] = ([1, 2, 3], Some (OtherError ''unexpected EOF''))"
    by (simp add: decodeHeader_def)
  have "\<exists>next loc. getNextBlock decodeHeader (initialScanner (flatFiles filesShort)) =
      (next, Some [1, 2, 3], loc, None)"
    using a b c d by (rule getNextBlock_drops_Deserialize_error)
  with d show ?thesis by simp
qed

section \<open>Properties of the replay loop\<close>

subsection \<open>One turn of the loop\<close>

lemma loop_accept_step:
  assumes "getNextBlock D sc = (scn, Some b, loc, None)" and "f b loc \<sigma> = (None, \<sigma>')"
  shows "recoverDB_loop D f sc n \<sigma> = recoverDB_loop D f scn (n + 1) \<sigma>'"
  using assms by (subst recoverDB_loop.simps) simp

lemma loop_reject:
  assumes "getNextBlock D sc = (scn, Some b, loc, None)" and "f b loc \<sigma> = (Some e, \<sigma>')"
  shows "recoverDB_loop D f sc n \<sigma> = Some (n + 1, Some e, \<sigma>')"
  using assms by (subst recoverDB_loop.simps) simp

lemma loop_corrupt:
  assumes "corruptRecordAt sc"
  shows "recoverDB_loop D f sc n \<sigma> = Some (n + 1, None, \<sigma>)"
proof -
  from getNextBlock_corrupt [OF assms] obtain e where
    "getNextBlock D sc = (zeroScanner, None, zeroLocation, Some e)" "isDbErrCorruption e"
    by blast
  then show ?thesis by (subst recoverDB_loop.simps) simp
qed

lemma loop_endOfData:
  assumes "endOfDataAt sc"
  shows "recoverDB_loop D f sc n \<sigma> = Some (n + 1, None, \<sigma>)"
  using getNextBlock_endOfData [OF assms, of D]
  by (subst recoverDB_loop.simps) simp

lemma loop_replay_prefix:
  "replay_prefix D f k sc \<sigma> = Some (c, \<sigma>') \<Longrightarrow>
   recoverDB_loop D f sc n \<sigma> = recoverDB_loop D f c (n + word_of_nat k) \<sigma>'"
proof (induction k arbitrary: sc \<sigma> n)
  case 0
  then show ?case by simp
next
  case (Suc k)
  from Suc.prems obtain scn b loc \<sigma>1 where
    g: "getNextBlock D sc = (scn, Some b, loc, None)" and
    a: "f b loc \<sigma> = (None, \<sigma>1)" and
    r: "replay_prefix D f k scn \<sigma>1 = Some (c, \<sigma>')"
    by (auto split: prod.splits option.splits)
  have "recoverDB_loop D f sc n \<sigma> = recoverDB_loop D f scn (n + 1) \<sigma>1"
    using g a by (rule loop_accept_step)
  also have "\<dots> = recoverDB_loop D f c (n + 1 + word_of_nat k) \<sigma>'"
    by (rule Suc.IH [OF r])
  finally show ?case by (simp add: add.assoc)
qed

lemma recoverDB_skip:
  assumes "getNextBlock D (initialScanner st) = (sc1, g, loc1, None)"
  shows "recoverDB D st f \<sigma> = recoverDB_loop D f sc1 0 \<sigma>"
  using assms by (simp add: recoverDB_def initialScanner_def)

subsection \<open>Corruption after the first record ends the replay without error\<close>

text \<open>
  C1, amended. Records are numbered from 1. If record 1 is read, records \<open>2 \<dots> k - 1\<close>
  are read and accepted by the callback, and record \<open>k \<ge> 2\<close> is structurally corrupted,
  then \<open>recoverDB\<close> returns no error with \<open>blocksRead = k - 1\<close> (as a \<^verbatim>\<open>uint32\<close>), and
  the callback state is the one after record \<open>k - 1\<close>. Nothing is assumed about the
  store beyond record \<open>k\<close>.
\<close>

theorem recoverDB_corrupt_tail:
  assumes "2 \<le> k"
    and "getNextBlock D (initialScanner st) = (sc1, Some g, loc1, None)"
    and "replay_prefix D f (k - 2) sc1 \<sigma> = Some (c, \<sigma>')"
    and "corruptRecordAt c"
  shows "recoverDB D st f \<sigma> = Some (word_of_nat (k - 1), None, \<sigma>')"
proof -
  have "recoverDB D st f \<sigma> = recoverDB_loop D f sc1 0 \<sigma>"
    using assms(2) by (rule recoverDB_skip)
  also have "\<dots> = recoverDB_loop D f c (0 + word_of_nat (k - 2)) \<sigma>'"
    using assms(3) by (rule loop_replay_prefix)
  also have "\<dots> = Some (0 + word_of_nat (k - 2) + 1, None, \<sigma>')"
    using assms(4) by (rule loop_corrupt)
  also have "(0 :: uint32) + word_of_nat (k - 2) + 1 = word_of_nat (Suc (k - 2))"
    by simp
  also have "Suc (k - 2) = k - 1"
    using assms(1) by arith
  finally show ?thesis .
qed

text \<open>On \<open>files3\<close>, record 3 is damaged: two blocks are counted, one is handed on.\<close>

theorem recoverDB_corrupt_tail_witness:
  "corruptRecordAt
     \<lparr>store = Some (flatFiles files3), fileNum = 1, fileOff = 0, fileLen = 0\<rparr> \<and>
   recoverDB decodeHeader (flatFiles files3) logBlock [] =
     Some (2, None, [\<lparr>blockFileNum = 0, fileOffset = 92, blockLen = 92\<rparr>])"
proof -
  have p: "replay_prefix decodeHeader logBlock (3 - 2)
          \<lparr>store = Some (flatFiles files3), fileNum = 0, fileOff = 92, fileLen = 184\<rparr> [] =
        Some (\<lparr>store = Some (flatFiles files3), fileNum = 1, fileOff = 0, fileLen = 0\<rparr>,
              [\<lparr>blockFileNum = 0, fileOffset = 92, blockLen = 92\<rparr>])"
    by (simp add: files3_second logBlock_def)
  from recoverDB_corrupt_tail [OF _ files3_first p files3_third] files3_third
  show ?thesis by simp
qed

text \<open>
  The claim as stated fails in two ways. When record 1 itself is corrupted, the skip
  of the first record returns that error. When the callback rejects a block before the
  corrupted record, the callback's error is returned.
\<close>

theorem recoverDB_corrupt_first_record_counterexample:
  "corruptRecordAt (initialScanner (flatFiles filesDamagedFirst)) \<and>
   recoverDB decodeHeader (flatFiles filesDamagedFirst) logBlock [] =
     Some (0, Some (DbError ErrCorruption ''checksum mismatch''), []) \<and>
   corruptRecordAt
     \<lparr>store = Some (flatFiles files3), fileNum = 1, fileOff = 0, fileLen = 0\<rparr> \<and>
   recoverDB decodeHeader (flatFiles files3) (rejectAfter 0) [] =
     Some (1, Some (OtherError ''block rejected''),
           [\<lparr>blockFileNum = 0, fileOffset = 92, blockLen = 92\<rparr>])"
proof -
  have a: "corruptRecordAt (initialScanner (flatFiles filesDamagedFirst))"
    by (simp add: corruptRecordAt_def initialScanner_def getNextLocation_def flatFiles_def
          filesDamagedFirst_def isDbErrCorruption_def)
  have b: "recoverDB decodeHeader (flatFiles filesDamagedFirst) logBlock [] =
     Some (0, Some (DbError ErrCorruption ''checksum mismatch''), [])"
    by (simp add: recoverDB_def getNextBlock_def getNextLocation_def flatFiles_def
          filesDamagedFirst_def Let_def)
  have "recoverDB decodeHeader (flatFiles files3) (rejectAfter 0) [] =
        recoverDB_loop decodeHeader (rejectAfter 0)
          \<lparr>store = Some (flatFiles files3), fileNum = 0, fileOff = 92, fileLen = 184\<rparr> 0 []"
    using files3_first by (rule recoverDB_skip)
  also have "\<dots> = Some (0 + 1, Some (OtherError ''block rejected''),
           [\<lparr>blockFileNum = 0, fileOffset = 92, blockLen = 92\<rparr>])"
    using files3_second by (rule loop_reject) (simp add: rejectAfter_def)
  finally have d: "recoverDB decodeHeader (flatFiles files3) (rejectAfter 0) [] =
     Some (1, Some (OtherError ''block rejected''),
           [\<lparr>blockFileNum = 0, fileOffset = 92, blockLen = 92\<rparr>])"
    by simp
  from a b files3_third d show ?thesis by blast
qed

subsection \<open>The count after N intact records\<close>

text \<open>
  C2, amended. If the sequence holds \<open>N \<ge> 1\<close> records, all read without error, followed
  by end-of-data, and the callback accepts records \<open>2 \<dots> N\<close>, then \<open>recoverDB\<close> hands
  exactly those \<open>N - 1\<close> blocks to the callback and returns no error with
  \<open>blocksRead = N\<close> (as a \<^verbatim>\<open>uint32\<close>): the counter is incremented before each advance
  of the loop, also before the one that meets end-of-data.
\<close>

theorem recoverDB_counts_all_records:
  assumes "1 \<le> N"
    and "getNextBlock D (initialScanner st) = (sc1, Some g, loc1, None)"
    and "replay_prefix D f (N - 1) sc1 \<sigma> = Some (c, \<sigma>')"
    and "endOfDataAt c"
  shows "recoverDB D st f \<sigma> = Some (word_of_nat N, None, \<sigma>')"
proof -
  have "recoverDB D st f \<sigma> = recoverDB_loop D f sc1 0 \<sigma>"
    using assms(2) by (rule recoverDB_skip)
  also have "\<dots> = recoverDB_loop D f c (0 + word_of_nat (N - 1)) \<sigma>'"
    using assms(3) by (rule loop_replay_prefix)
  also have "\<dots> = Some (0 + word_of_nat (N - 1) + 1, None, \<sigma>')"
    using assms(4) by (rule loop_endOfData)
  also have "(0 :: uint32) + word_of_nat (N - 1) + 1 = word_of_nat (Suc (N - 1))"
    by simp
  also have "Suc (N - 1) = N"
    using assms(1) by arith
  finally show ?thesis .
qed

theorem recoverDB_counts_all_records_witness:
  "endOfDataAt
     \<lparr>store = Some (flatFiles files2), fileNum = 2, fileOff = 0, fileLen = 0\<rparr> \<and>
   recoverDB decodeHeader (flatFiles files2) logBlock [] =
     Some (2, None, [\<lparr>blockFileNum = 1, fileOffset = 0, blockLen = 92\<rparr>])"
  using recoverDB_counts_all_records [of 2, OF _ files2_first _ files2_end]
    files2_prefix files2_end
  by simp

text \<open>
  On \<open>files2\<close>, two intact records and then no file: one block is handed to the
  callback, and the count returned is 2, not 1.
\<close>

theorem recoverDB_blocksRead_counterexample:
  "getNextBlock decodeHeader (initialScanner (flatFiles files2)) =
     (\<lparr>store = Some (flatFiles files2), fileNum = 1, fileOff = 0, fileLen = 0\<rparr>,
      Some (replicate 80 1), \<lparr>blockFileNum = 0, fileOffset = 0, blockLen = 92\<rparr>, None) \<and>
   replay_prefix decodeHeader logBlock 1
     \<lparr>store = Some (flatFiles files2), fileNum = 1, fileOff = 0, fileLen = 0\<rparr> [] =
     Some (\<lparr>store = Some (flatFiles files2), fileNum = 2, fileOff = 0, fileLen = 0\<rparr>,
           [\<lparr>blockFileNum = 1, fileOffset = 0, blockLen = 92\<rparr>]) \<and>
   endOfDataAt
     \<lparr>store = Some (flatFiles files2), fileNum = 2, fileOff = 0, fileLen = 0\<rparr> \<and>
   recoverDB decodeHeader (flatFiles files2) logBlock [] =
     Some (2, None, [\<lparr>blockFileNum = 1, fileOffset = 0, blockLen = 92\<rparr>]) \<and>
   (2 :: uint32) \<noteq> 2 - 1"
proof -
  have "recoverDB decodeHeader (flatFiles files2) logBlock [] =
        recoverDB_loop decodeHeader logBlock
          \<lparr>store = Some (flatFiles files2), fileNum = 1, fileOff = 0, fileLen = 0\<rparr> 0 []"
    using files2_first by (rule recoverDB_skip)
  also have "\<dots> = recoverDB_loop decodeHeader logBlock
          \<lparr>store = Some (flatFiles files2), fileNum = 2, fileOff = 0, fileLen = 0\<rparr> (0 + 1)
          [\<lparr>blockFileNum = 1, fileOffset = 0, blockLen = 92\<rparr>]"
    using files2_second by (rule loop_accept_step) (simp add: logBlock_def)
  also have "\<dots> = Some (0 + 1 + 1, None,
      [\<lparr>blockFileNum = 1, fileOffset = 0, blockLen = 92\<rparr>])"
    using files2_end by (rule loop_endOfData)
  finally have "recoverDB decodeHeader (flatFiles files2) logBlock [] =
      Some (2, None, [\<lparr>blockFileNum = 1, fileOffset = 0, blockLen = 92\<rparr>])"
    by simp
  with files2_first files2_prefix files2_end show ?thesis by simp
qed

subsection \<open>A rejected block ends the replay\<close>

text \<open>
  C6. If the first advance returns no error, the next \<open>j\<close> blocks are read and accepted,
  and the callback returns an error \<open>e\<close> on the block after them, then \<open>recoverDB\<close>
  returns \<open>e\<close> with \<open>blocksRead = j + 1\<close>: the count of the advances made by the loop, so
  none follows the rejection, and the callback state returned is the one the rejecting
  call left, so the callback is not called again.
\<close>

theorem recoverDB_callback_rejection:
  assumes "getNextBlock D (initialScanner st) = (sc1, g, loc1, None)"
    and "replay_prefix D f j sc1 \<sigma> = Some (c, \<sigma>j)"
    and "getNextBlock D c = (scn, Some b, loc, None)"
    and "f b loc \<sigma>j = (Some e, \<sigma>')"
  shows "recoverDB D st f \<sigma> = Some (word_of_nat (j + 1), Some e, \<sigma>')"
proof -
  have "recoverDB D st f \<sigma> = recoverDB_loop D f sc1 0 \<sigma>"
    using assms(1) by (rule recoverDB_skip)
  also have "\<dots> = recoverDB_loop D f c (0 + word_of_nat j) \<sigma>j"
    using assms(2) by (rule loop_replay_prefix)
  also have "\<dots> = Some (0 + word_of_nat j + 1, Some e, \<sigma>')"
    using assms(3,4) by (rule loop_reject)
  finally show ?thesis by simp
qed

text \<open>
  On \<open>files4\<close> with a callback that accepts one block and rejects the next: records
  2 and 3 reach the callback, record 4 does not.
\<close>

theorem recoverDB_callback_rejection_witness:
  "recoverDB decodeHeader (flatFiles files4) (rejectAfter 1) [] =
     Some (2, Some (OtherError ''block rejected''),
           [\<lparr>blockFileNum = 0, fileOffset = 92, blockLen = 92\<rparr>,
            \<lparr>blockFileNum = 1, fileOffset = 0, blockLen = 92\<rparr>])"
proof -
  have g1: "getNextBlock decodeHeader (initialScanner (flatFiles files4)) =
     (\<lparr>store = Some (flatFiles files4), fileNum = 0, fileOff = 92, fileLen = 184\<rparr>,
      Some (replicate 80 1),
      \<lparr>blockFileNum = 0, fileOffset = 0, blockLen = 92\<rparr>, None)"
    by (simp add: flat_eval files4_def)
  have g2: "getNextBlock decodeHeader
     \<lparr>store = Some (flatFiles files4), fileNum = 0, fileOff = 92, fileLen = 184\<rparr> =
     (\<lparr>store = Some (flatFiles files4), fileNum = 1, fileOff = 0, fileLen = 0\<rparr>,
      Some (replicate 80 2),
      \<lparr>blockFileNum = 0, fileOffset = 92, blockLen = 92\<rparr>, None)"
    by (simp add: flat_eval files4_def)
  have g3: "getNextBlock decodeHeader
     \<lparr>store = Some (flatFiles files4), fileNum = 1, fileOff = 0, fileLen = 0\<rparr> =
     (\<lparr>store = Some (flatFiles files4), fileNum = 1, fileOff = 92, fileLen = 184\<rparr>,
      Some (replicate 80 3),
      \<lparr>blockFileNum = 1, fileOffset = 0, blockLen = 92\<rparr>, None)"
    by (simp add: flat_eval files4_def)
  have p: "replay_prefix decodeHeader (rejectAfter 1) (Suc 0)
     \<lparr>store = Some (flatFiles files4), fileNum = 0, fileOff = 92, fileLen = 184\<rparr> [] =
     Some (\<lparr>store = Some (flatFiles files4), fileNum = 1, fileOff = 0, fileLen = 0\<rparr>,
           [\<lparr>blockFileNum = 0, fileOffset = 92, blockLen = 92\<rparr>])"
    by (simp add: g2 rejectAfter_def)
  have r: "rejectAfter 1 (replicate 80 (3 :: byte))
             \<lparr>blockFileNum = 1, fileOffset = 0, blockLen = 92\<rparr>
             [\<lparr>blockFileNum = 0, fileOffset = 92, blockLen = 92\<rparr>] =
           (Some (OtherError ''block rejected''),
            [\<lparr>blockFileNum = 0, fileOffset = 92, blockLen = 92\<rparr>,
             \<lparr>blockFileNum = 1, fileOffset = 0, blockLen = 92\<rparr>])"
    by (simp add: rejectAfter_def)
  from recoverDB_callback_rejection [OF g1 p g3 r] show ?thesis by simp
qed

subsection \<open>The two revisions of the loop agree\<close>

lemma inline_to_callback:
  assumes "recoverDB_loop_inline D P sc n \<sigma> = Some r"
  shows "recoverDB_loop D (processOnly P) sc n \<sigma> = Some r"
proof (rule recoverDB_loop_inline.raw_induct
    [where P = "\<lambda>D P sc n \<sigma> r. recoverDB_loop D (processOnly P) sc n \<sigma> = Some r"],
    goal_cases)
  case (1 loop D P sc n \<sigma> r)
  from 1(2) show ?case
    by (subst recoverDB_loop.simps)
       (auto simp: processOnly_def split: prod.splits option.splits if_splits dest: 1(1))
next
  case 2
  show ?case by (rule assms)
qed

lemma callback_to_inline:
  assumes "recoverDB_loop D (processOnly P) sc n \<sigma> = Some r"
  shows "recoverDB_loop_inline D P sc n \<sigma> = Some r"
proof -
  have "recoverDB_loop D f sc n \<sigma> = Some r \<Longrightarrow>
        \<forall>P. f = processOnly P \<longrightarrow> recoverDB_loop_inline D P sc n \<sigma> = Some r" for f
  proof (rule recoverDB_loop.raw_induct
      [where P = "\<lambda>D f sc n \<sigma> r.
         \<forall>P. f = processOnly P \<longrightarrow> recoverDB_loop_inline D P sc n \<sigma> = Some r"],
      goal_cases)
    case (1 loop D f sc n \<sigma> r)
    show ?case
    proof (intro allI impI)
      fix P assume f: "f = processOnly P"
      from 1(3) show "recoverDB_loop_inline D P sc n \<sigma> = Some r"
        unfolding f
        by (subst recoverDB_loop_inline.simps)
           (auto simp: processOnly_def split: prod.splits option.splits if_splits
                 dest: 1(2) [rule_format, OF _ refl])
    qed
  next
    case 2
    then show ?case by simp
  qed
  with assms show ?thesis by blast
qed

lemma loops_equal:
  "recoverDB_loop_inline D P sc n \<sigma> = recoverDB_loop D (processOnly P) sc n \<sigma>"
proof (cases "recoverDB_loop_inline D P sc n \<sigma>")
  case None
  show ?thesis
  proof (cases "recoverDB_loop D (processOnly P) sc n \<sigma>")
    case None
    with \<open>recoverDB_loop_inline D P sc n \<sigma> = None\<close> show ?thesis by simp
  next
    case (Some r)
    then have "recoverDB_loop_inline D P sc n \<sigma> = Some r"
      by (rule callback_to_inline)
    with None show ?thesis by simp
  qed
next
  case (Some r)
  then show ?thesis by (simp add: inline_to_callback)
qed

text \<open>
  C10. For every decoder, store and processing function, the callback revision of
  \<open>recoverDB\<close>, called with a callback that only calls the processing function, returns
  what the inline revision returns: the same count, error and final chain state, and it
  fails to return exactly when the inline revision does.
\<close>

theorem recoverDB_variants_equal:
  "recoverDB D st (processOnly ProcessBlock) \<sigma> = recoverDB_inline D st ProcessBlock \<sigma>"
  by (simp add: recoverDB_def recoverDB_inline_def loops_equal
           split: prod.splits option.splits)

section \<open>Properties of the staging\<close>

subsection \<open>What os.Stat tells about the tree\<close>

lemma stat_root: "os_Stat fs [] = Inr n \<longleftrightarrow> tree fs = Some n"
  by (simp add: os_Stat_def split: option.splits)

lemma stat1_Inr:
  "os_Stat fs [a] = Inr n \<longleftrightarrow> (\<exists>es. tree fs = Some (Dir es) \<and> es a = Some n)"
proof (cases "tree fs")
  case None
  then show ?thesis by (simp add: os_Stat_def)
next
  case (Some top_node)
  then show ?thesis by (cases top_node) (simp_all add: os_Stat_def split: option.splits)
qed

lemma stat1_ENOENT:
  "os_Stat fs [a] = Inl (PathError ENOENT) \<longleftrightarrow>
     tree fs = None \<or> (\<exists>es. tree fs = Some (Dir es) \<and> es a = None)"
proof (cases "tree fs")
  case None
  then show ?thesis by (simp add: os_Stat_def)
next
  case (Some top_node)
  then show ?thesis by (cases top_node) (simp_all add: os_Stat_def split: option.splits)
qed

lemma stat2_Dir:
  "tree fs = Some (Dir es) \<Longrightarrow> es a = Some c \<Longrightarrow> os_Stat fs [a, b] = child c b"
  by (simp add: os_Stat_def split: sum.splits)

lemma stat2_Inr:
  "os_Stat fs [a, b] = Inr n \<longleftrightarrow>
     (\<exists>es rs. tree fs = Some (Dir es) \<and> es a = Some (Dir rs) \<and> rs b = Some n)"
proof (cases "tree fs")
  case None
  then show ?thesis by (simp add: os_Stat_def)
next
  case (Some top_node)
  show ?thesis
  proof (cases top_node)
    case (File bs)
    with Some show ?thesis by (simp add: os_Stat_def)
  next
    case (Dir es)
    show ?thesis
    proof (cases "es a")
      case None
      with Some Dir show ?thesis by (simp add: os_Stat_def)
    next
      case (Some c)
      with \<open>tree fs = Some top_node\<close> Dir show ?thesis
        by (cases c) (simp_all add: os_Stat_def split: option.splits)
    qed
  qed
qed

lemma stat2_ENOENT:
  "os_Stat fs [a, b] = Inl (PathError ENOENT) \<longleftrightarrow>
     tree fs = None \<or> (\<exists>es. tree fs = Some (Dir es) \<and>
        (es a = None \<or> (\<exists>rs. es a = Some (Dir rs) \<and> rs b = None)))"
proof (cases "tree fs")
  case None
  then show ?thesis by (simp add: os_Stat_def)
next
  case (Some top_node)
  show ?thesis
  proof (cases top_node)
    case (File bs)
    with Some show ?thesis by (simp add: os_Stat_def)
  next
    case (Dir es)
    show ?thesis
    proof (cases "es a")
      case None
      with Some Dir show ?thesis by (simp add: os_Stat_def)
    next
      case (Some c)
      with \<open>tree fs = Some top_node\<close> Dir show ?thesis
        by (cases c) (simp_all add: os_Stat_def split: option.splits)
    qed
  qed
qed

subsection \<open>The outcome of a staging run\<close>

lemma recoveryDir_nonempty: "recoveryDir \<noteq> []"
  by (simp add: recoveryDir_def)

lemmas staging_eval =
  recoverDatabase_staging_def createRecoveryDir_def moveDatabase_def deleteOldDatabase_def
  os_Stat_def os_MkdirAll_def os_RemoveAll_def mv_def Join_def os_IsNotExist_def Let_def
  recoveryDir_nonempty

lemma subdirOf_recognised:
  assumes "net = MainNet \<or> net = TestNet3"
  shows "subdirOf net \<noteq> [] \<and> subdirOf net \<noteq> recoveryDir"
  using assms by (auto simp: subdirOf_def recoveryDir_def)

lemma staging_noop:
  assumes sd: "subdirOf net \<noteq> []" "subdirOf net \<noteq> recoveryDir"
    and t: "tree fs = Some (Dir es)" and d: "es (subdirOf net) = None"
    and r: "es recoveryDir = Some r"
    and c: "child r (subdirOf net) \<noteq> Inl (PathError ENOENT)"
  shows "recoverDatabase_staging net fs = (None, fs)"
proof (cases "child r (subdirOf net)")
  case (Inl e)
  with c have "e \<noteq> PathError ENOENT" by simp
  with Inl sd t d r show ?thesis by (simp add: staging_eval)
next
  case (Inr n)
  with sd t d r show ?thesis by (simp add: staging_eval)
qed

lemma staging_shape:
  assumes sd: "subdirOf net \<noteq> []" "subdirOf net \<noteq> recoveryDir"
    and run: "recoverDatabase_staging net fs = (None, fs1)"
  shows "\<exists>es r. tree fs1 = Some (Dir es) \<and> es (subdirOf net) = None \<and>
           es recoveryDir = Some r \<and> child r (subdirOf net) \<noteq> Inl (PathError ENOENT)"
proof (cases "tree fs")
  case None
  with run show ?thesis by (simp add: staging_eval)
next
  case (Some top_node)
  show ?thesis
  proof (cases top_node)
    case (File bs)
    with Some sd run show ?thesis by (simp add: staging_eval)
  next
    case (Dir es)
    note shape = Some Dir
    show ?thesis
    proof (cases "es recoveryDir")
      case None
      note noR = this
      show ?thesis
      proof (cases "es (subdirOf net)")
        case None
        with shape noR sd run show ?thesis by (simp add: staging_eval)
      next
        case (Some n)
        with shape noR sd run have
          "tree fs1 = Some (Dir (es(subdirOf net := None,
                     recoveryDir \<mapsto> Dir (Map.empty(subdirOf net \<mapsto> n)))))"
          by (auto simp add: staging_eval fun_upd_twist)
        with sd show ?thesis by simp
      qed
    next
      case (Some r)
      note R = this
      show ?thesis
      proof (cases r)
        case (File bs)
        show ?thesis
        proof (cases "es (subdirOf net)")
          case None
          with shape R File sd run have "fs1 = fs" by (simp add: staging_eval)
          with shape R File None show ?thesis by simp
        next
          case (Some n)
          with shape R File sd run have
            "tree fs1 = Some (Dir (es(subdirOf net := None)))"
            by (auto simp add: staging_eval)
          with R File sd show ?thesis by simp
        qed
      next
        case (Dir rs)
        show ?thesis
        proof (cases "rs (subdirOf net)")
          case None
          note noStaged = this
          show ?thesis
          proof (cases "es (subdirOf net)")
            case None
            with shape R Dir noStaged sd run show ?thesis by (simp add: staging_eval)
          next
            case (Some n)
            with shape R Dir noStaged sd run have
              "tree fs1 = Some (Dir (es(subdirOf net := None,
                         recoveryDir \<mapsto> Dir (rs(subdirOf net \<mapsto> n)))))"
              by (auto simp add: staging_eval fun_upd_twist)
            with sd show ?thesis by simp
          qed
        next
          case (Some d)
          note staged = this
          show ?thesis
          proof (cases "es (subdirOf net)")
            case None
            with shape R Dir staged sd run have "fs1 = fs" by (simp add: staging_eval)
            with shape R Dir staged None show ?thesis by simp
          next
            case (Some n)
            with shape R Dir staged sd run have
              "tree fs1 = Some (Dir (es(subdirOf net := None)))"
              by (auto simp add: staging_eval)
            with R Dir staged sd show ?thesis by simp
          qed
        qed
      qed
    qed
  qed
qed

lemma staging_staged:
  assumes sd: "subdirOf net \<noteq> []" "subdirOf net \<noteq> recoveryDir"
    and st: "os_Stat fs [recoveryDir, subdirOf net] = Inr d"
  shows "\<exists>fs'. recoverDatabase_staging net fs = (None, fs') \<and>
           os_Stat fs' [recoveryDir, subdirOf net] = Inr d \<and>
           os_Stat fs' [subdirOf net] = Inl (PathError ENOENT) \<and>
           (\<exists>cs. commands fs' = commands fs @ cs \<and> \<not> list_ex isMove cs)"
proof -
  from st obtain es rs where shape: "tree fs = Some (Dir es)"
      "es recoveryDir = Some (Dir rs)" "rs (subdirOf net) = Some d"
    unfolding stat2_Inr by blast
  show ?thesis
  proof (cases "es (subdirOf net)")
    case None
    with shape sd have "recoverDatabase_staging net fs = (None, fs)"
      by (simp add: staging_eval)
    moreover from None shape have "os_Stat fs [subdirOf net] = Inl (PathError ENOENT)"
      by (simp add: stat1_ENOENT)
    ultimately show ?thesis using st by simp
  next
    case (Some n)
    let ?fs' = "\<lparr>tree = Some (Dir (es(subdirOf net := None))),
                 commands = commands fs @ [RemoveAll [subdirOf net]]\<rparr>"
    from Some shape sd have "recoverDatabase_staging net fs = (None, ?fs')"
      by (simp add: staging_eval)
    moreover from shape sd have "os_Stat ?fs' [recoveryDir, subdirOf net] = Inr d"
      by (simp add: stat2_Inr)
    moreover have "os_Stat ?fs' [subdirOf net] = Inl (PathError ENOENT)"
      by (simp add: stat1_ENOENT)
    moreover have "\<not> list_ex isMove [RemoveAll [subdirOf net]]"
      by (simp add: isMove_def)
    ultimately show ?thesis by simp
  qed
qed

lemma staging_moved:
  assumes sd: "subdirOf net \<noteq> []" "subdirOf net \<noteq> recoveryDir"
    and run: "recoverDatabase_staging net fs = (None, fs1)"
    and st: "os_Stat fs [recoveryDir, subdirOf net] = Inl (PathError ENOENT)"
    and db: "os_Stat fs [subdirOf net] = Inr d"
  shows "os_Stat fs1 [recoveryDir, subdirOf net] = Inr d"
proof -
  from db obtain es where shape: "tree fs = Some (Dir es)" "es (subdirOf net) = Some d"
    unfolding stat1_Inr by blast
  from st shape consider (noDir) "es recoveryDir = None"
    | (noEntry) rs where "es recoveryDir = Some (Dir rs)" "rs (subdirOf net) = None"
    unfolding stat2_ENOENT by auto
  then show ?thesis
  proof cases
    case noDir
    with shape sd run have
      "tree fs1 = Some (Dir (es(subdirOf net := None,
                     recoveryDir \<mapsto> Dir (Map.empty(subdirOf net \<mapsto> d)))))"
      by (auto simp add: staging_eval fun_upd_twist)
    then show ?thesis by (simp add: stat2_Inr)
  next
    case noEntry
    with shape sd run have
      "tree fs1 = Some (Dir (es(subdirOf net := None,
                         recoveryDir \<mapsto> Dir (rs(subdirOf net \<mapsto> d)))))"
      by (auto simp add: staging_eval fun_upd_twist)
    then show ?thesis by (simp add: stat2_Inr)
  qed
qed

lemma paths_recognised:
  assumes "subdirOf net \<noteq> []"
  shows "dbPath net = [subdirOf net]" and "recoveryDbPath net = [recoveryDir, subdirOf net]"
  using assms
  by (simp_all add: dbPath_def recoveryDbPath_def recoveryPath_def Join_def recoveryDir_nonempty)

subsection \<open>Running the staging twice\<close>

text \<open>
  C7. For the nets \<open>MainNet\<close> and \<open>TestNet3\<close>: when a run of the staging steps has
  succeeded, a second run on the state it left succeeds and leaves that state as it
  is, the list of commands included, so it performs no move; the database path is
  gone, and a database that the first run found at the database path with nothing at
  the staging sub-path is now at the staging sub-path. Moreover, whenever the staging
  sub-path already holds data, a run succeeds without any \<^verbatim>\<open>mv\<close>, leaves that data in
  place and leaves nothing at the database path.
\<close>

theorem staging_reentrant:
  assumes net: "net = MainNet \<or> net = TestNet3"
  shows "(\<forall>fs1. recoverDatabase_staging net fs = (None, fs1) \<longrightarrow>
            recoverDatabase_staging net fs1 = (None, fs1) \<and>
            os_Stat fs1 (dbPath net) = Inl (PathError ENOENT) \<and>
            (\<forall>d. os_Stat fs (recoveryDbPath net) = Inl (PathError ENOENT) \<and>
                 os_Stat fs (dbPath net) = Inr d \<longrightarrow>
                 os_Stat fs1 (recoveryDbPath net) = Inr d)) \<and>
         (\<forall>d. os_Stat fs (recoveryDbPath net) = Inr d \<longrightarrow>
            (\<exists>fs'. recoverDatabase_staging net fs = (None, fs') \<and>
               os_Stat fs' (recoveryDbPath net) = Inr d \<and>
               os_Stat fs' (dbPath net) = Inl (PathError ENOENT) \<and>
               (\<exists>cs. commands fs' = commands fs @ cs \<and> \<not> list_ex isMove cs)))"
proof -
  from net have sd: "subdirOf net \<noteq> []" "subdirOf net \<noteq> recoveryDir"
    using subdirOf_recognised by blast+
  note p = paths_recognised [OF sd(1)]
  have first: "recoverDatabase_staging net fs1 = (None, fs1) \<and>
      os_Stat fs1 [subdirOf net] = Inl (PathError ENOENT)"
    if run: "recoverDatabase_staging net fs = (None, fs1)" for fs1
  proof -
    from staging_shape [OF sd run] obtain es r where shape:
      "tree fs1 = Some (Dir es)" "es (subdirOf net) = None" "es recoveryDir = Some r"
      "child r (subdirOf net) \<noteq> Inl (PathError ENOENT)"
      by blast
    have "recoverDatabase_staging net fs1 = (None, fs1)"
      using sd shape by (rule staging_noop)
    moreover from shape have "os_Stat fs1 [subdirOf net] = Inl (PathError ENOENT)"
      by (simp add: stat1_ENOENT)
    ultimately show ?thesis by simp
  qed
  have moved: "os_Stat fs1 [recoveryDir, subdirOf net] = Inr d"
    if "recoverDatabase_staging net fs = (None, fs1)"
      and "os_Stat fs [recoveryDir, subdirOf net] = Inl (PathError ENOENT) \<and>
           os_Stat fs [subdirOf net] = Inr d" for fs1 d
    using staging_moved [OF sd that(1)] that(2) by simp
  have part1: "\<forall>fs1. recoverDatabase_staging net fs = (None, fs1) \<longrightarrow>
            recoverDatabase_staging net fs1 = (None, fs1) \<and>
            os_Stat fs1 [subdirOf net] = Inl (PathError ENOENT) \<and>
            (\<forall>d. os_Stat fs [recoveryDir, subdirOf net] = Inl (PathError ENOENT) \<and>
                 os_Stat fs [subdirOf net] = Inr d \<longrightarrow>
                 os_Stat fs1 [recoveryDir, subdirOf net] = Inr d)"
  proof (intro allI impI conjI)
    fix fs1 assume run: "recoverDatabase_staging net fs = (None, fs1)"
    from first [OF run] show "recoverDatabase_staging net fs1 = (None, fs1)" ..
    from first [OF run] show "os_Stat fs1 [subdirOf net] = Inl (PathError ENOENT)" ..
    fix d assume "os_Stat fs [recoveryDir, subdirOf net] = Inl (PathError ENOENT) \<and>
                 os_Stat fs [subdirOf net] = Inr d"
    with run show "os_Stat fs1 [recoveryDir, subdirOf net] = Inr d" by (rule moved)
  qed
  have part2: "\<forall>d. os_Stat fs [recoveryDir, subdirOf net] = Inr d \<longrightarrow>
            (\<exists>fs'. recoverDatabase_staging net fs = (None, fs') \<and>
               os_Stat fs' [recoveryDir, subdirOf net] = Inr d \<and>
               os_Stat fs' [subdirOf net] = Inl (PathError ENOENT) \<and>
               (\<exists>cs. commands fs' = commands fs @ cs \<and> \<not> list_ex isMove cs))"
  proof (intro allI impI)
    fix d assume "os_Stat fs [recoveryDir, subdirOf net] = Inr d"
    with sd show "\<exists>fs'. recoverDatabase_staging net fs = (None, fs') \<and>
               os_Stat fs' [recoveryDir, subdirOf net] = Inr d \<and>
               os_Stat fs' [subdirOf net] = Inl (PathError ENOENT) \<and>
               (\<exists>cs. commands fs' = commands fs @ cs \<and> \<not> list_ex isMove cs)"
      by (rule staging_staged)
  qed
  from part1 part2 show ?thesis
    unfolding p by (rule conjI)
qed

text \<open>The staging of \<open>freshInstall\<close> and its second run.\<close>

lemma first_run: "recoverDatabase_staging MainNet freshInstall = (None, stagedInstall)"
  by (simp add: staging_eval subdirOf_def recoveryDir_def freshInstall_def stagedInstall_def)

theorem staging_reentrant_witness:
  "recoverDatabase_staging MainNet freshInstall = (None, stagedInstall) \<and>
   recoverDatabase_staging MainNet stagedInstall = (None, stagedInstall) \<and>
   os_Stat stagedInstall (dbPath MainNet) = Inl (PathError ENOENT) \<and>
   os_Stat stagedInstall (recoveryDbPath MainNet) = Inr liveDatabase"
proof -
  have a: "os_Stat freshInstall (recoveryDbPath MainNet) = Inl (PathError ENOENT)"
    by (simp add: os_Stat_def recoveryDbPath_def recoveryPath_def Join_def subdirOf_def
          recoveryDir_def freshInstall_def)
  have b: "os_Stat freshInstall (dbPath MainNet) = Inr liveDatabase"
    by (simp add: os_Stat_def dbPath_def Join_def subdirOf_def freshInstall_def)
  from staging_reentrant [of MainNet freshInstall] first_run a b
  show ?thesis by blast
qed

section \<open>Properties of the progress reports\<close>

lemma reportInterval_zero:
  assumes "dbSize < 100"
  shows "dbSize div 100 = (0 :: uint64)"
proof -
  from assms have "unat dbSize < 100"
    by (simp add: word_less_nat_alt)
  then have "unat (dbSize div 100) = 0"
    by (simp add: unat_div)
  then show ?thesis by (simp add: unat_eq_0)
qed

lemma reportInterval_nonzero:
  assumes "100 \<le> dbSize"
  shows "dbSize div 100 \<noteq> (0 :: uint64)"
proof -
  from assms have "100 \<le> unat dbSize"
    by (simp add: word_le_nat_alt)
  then have "0 < unat dbSize div 100"
    by (simp add: div_greater_zero_iff)
  then show "dbSize div 100 \<noteq> 0"
    by (simp flip: unat_gt_0 add: unat_div)
qed

text \<open>The callback panics exactly when the database is smaller than 100 bytes.\<close>

lemma progressCallback_panics_iff:
  "(\<exists>p. progressCallback dbSize P blk loc st = Inl p) \<longleftrightarrow> dbSize < 100"
proof (cases "dbSize < 100")
  case True
  then show ?thesis
    by (simp add: progressCallback_def reportInterval_zero Let_def)
next
  case False
  then have "100 \<le> dbSize" by simp
  then have "dbSize div 100 \<noteq> 0" by (rule reportInterval_nonzero)
  with False show ?thesis
    by (simp add: progressCallback_def Let_def split: prod.splits)
qed




end
